theory Spec2Isabelle
  imports Main "HOL-Library.Word"
begin

section \<open>Python values\<close>

text \<open>
  A Python \<open>str\<close> is a sequence of Unicode code points and a \<open>bytes\<close> object a sequence of
  octets. The raw values handed to a field are dynamically typed; the embedding covers
  \<open>None\<close>, \<open>str\<close>, \<open>int\<close> and \<open>datetime.date\<close> (year, month, day).
\<close>

type_synonym uchar = nat
type_synonym ustring = "uchar list"
type_synonym byte = "8 word"
type_synonym bytes = "byte list"

definition ustr :: "string \<Rightarrow> ustring" where
  "ustr s = map of_char s"

datatype pyval = PNone | PStr ustring | PInt int | PDate nat nat nat

datatype error = ValueError string | TypeError | AttributeError | KeyError | AssertionError

text \<open>Truthiness (\<open>not value\<close>) and \<open>value or ""\<close>.\<close>

fun truthy :: "pyval \<Rightarrow> bool" where
  "truthy PNone = False"
| "truthy (PStr s) = (s \<noteq> [])"
| "truthy (PInt i) = (i \<noteq> 0)"
| "truthy (PDate y m d) = True"

definition py_or :: "pyval \<Rightarrow> pyval \<Rightarrow> pyval" where
  "py_or a b = (if truthy a then a else b)"

text \<open>Decimal rendering: \<open>"%d" % v\<close> and \<open>"%0*d" % (width, v)\<close>.\<close>

fun digits :: "nat \<Rightarrow> ustring" where
  "digits n = (if n < 10 then [48 + n] else digits (n div 10) @ [48 + n mod 10])"

declare digits.simps [simp del]

definition str_int :: "int \<Rightarrow> ustring" where
  "str_int i = (if i < 0 then 45 # digits (nat (- i)) else digits (nat i))"

definition format_0d :: "nat \<Rightarrow> int \<Rightarrow> ustring" where
  "format_0d width i =
     (let sign = (if i < 0 then [45] else []);
          ds = digits (nat \<bar>i\<bar>)
      in sign @ replicate (width - length sign - length ds) 48 @ ds)"

text \<open>\<open>str(v)\<close>; a date prints in ISO form.\<close>

fun py_str :: "pyval \<Rightarrow> ustring" where
  "py_str PNone = ustr ''None''"
| "py_str (PStr s) = s"
| "py_str (PInt i) = str_int i"
| "py_str (PDate y m d) =
     format_0d 4 (int y) @ [45] @ format_0d 2 (int m) @ [45] @ format_0d 2 (int d)"

text \<open>\<open>s.replace(a, b)\<close> for single characters.\<close>

definition replace_char :: "uchar \<Rightarrow> uchar \<Rightarrow> ustring \<Rightarrow> ustring" where
  "replace_char a b s = map (\<lambda>c. if c = a then b else c) s"

text \<open>
  The \<open>values\<close> argument of a field is a \<open>str\<close> (membership is the substring test and
  needs a \<open>str\<close> on the left) or a tuple or list (membership by equality).
\<close>

datatype container = CStr ustring | CSeq "pyval list"

fun container_truthy :: "container \<Rightarrow> bool" where
  "container_truthy (CStr s) = (s \<noteq> [])"
| "container_truthy (CSeq xs) = (xs \<noteq> [])"

fun contains :: "ustring \<Rightarrow> ustring \<Rightarrow> bool" where
  "contains [] sub = (sub = [])"
| "contains (c # cs) sub = (take (length sub) (c # cs) = sub \<or> contains cs sub)"

fun py_in :: "pyval \<Rightarrow> container \<Rightarrow> error + bool" where
  "py_in (PStr t) (CStr s) = Inr (contains s t)"
| "py_in PNone (CStr s) = Inl TypeError"
| "py_in (PInt i) (CStr s) = Inl TypeError"
| "py_in (PDate y m d) (CStr s) = Inl TypeError"
| "py_in v (CSeq xs) = Inr (List.member xs v)"

text \<open>A call returns (\<open>Inr\<close>) or raises (\<open>Inl\<close>).\<close>

definition returns :: "error + 'a \<Rightarrow> bool" where
  "returns r = (case r of Inl e \<Rightarrow> False | Inr x \<Rightarrow> True)"

section \<open>Field descriptors (base.py)\<close>

datatype kind =
    StringField | IntegerField | ShortDateField | DateField | CurrencyField
  | StaticField ustring

record field =
  kind :: kind
  creation_counter :: nat
  length_field :: "nat option"
  max_length :: "nat option"
  name :: "ustring option"
  required :: bool
  index :: "int option"
  blank :: bool
  field_name :: "ustring option"
  values_field :: "container option"

text \<open>The keyword arguments of \<open>FieldBase.__init__\<close>, with their defaults.\<close>

record kwargs =
  kw_max_length :: "nat option"
  kw_length :: "nat option"
  kw_name :: "ustring option"
  kw_index :: "int option"
  kw_blank :: bool
  kw_required :: bool

definition no_kwargs :: kwargs where
  "no_kwargs = \<lparr>kw_max_length = None, kw_length = None, kw_name = None, kw_index = None,
                kw_blank = False, kw_required = False\<rparr>"

text \<open>\<open>if self.length\<close>: an optional length counts as set when it is neither \<open>None\<close> nor 0.\<close>

definition is_set :: "nat option \<Rightarrow> bool" where
  "is_set n = (case n of None \<Rightarrow> False | Some k \<Rightarrow> k \<noteq> 0)"

text \<open>
  \<open>FieldBase.__init__\<close>. The last argument is the class-wide \<open>FieldBase.creation_counter\<close>
  at the time of the call; the caller increments it after a successful construction.
\<close>

definition FieldBase_init :: "kind \<Rightarrow> container option \<Rightarrow> kwargs \<Rightarrow> nat \<Rightarrow> error + field" where
  "FieldBase_init k vals kw cc =
     (if is_set (kw_length kw) \<and> is_set (kw_max_length kw) \<and> kw_length kw \<noteq> kw_max_length kw
      then Inl (ValueError ''max_length != length'')
      else Inr \<lparr>kind = k, creation_counter = cc, length_field = kw_length kw,
                max_length = kw_max_length kw, name = kw_name kw, required = kw_required kw,
                index = kw_index kw, blank = kw_blank kw, field_name = None,
                values_field = vals\<rparr>)"

text \<open>
  \<open>StringField.__init__(self, values=None, **kwargs)\<close> executes \<open>self.values = None\<close>:
  the argument is not stored. The first argument is the class being instantiated
  (\<open>StringField\<close> or one of its subclasses).
\<close>

definition StringField_init :: "kind \<Rightarrow> container option \<Rightarrow> kwargs \<Rightarrow> nat \<Rightarrow> error + field" where
  "StringField_init k vals kw cc = FieldBase_init k None kw cc"

text \<open>\<open>IntegerField.__init__\<close> executes \<open>self.values = values\<close>.\<close>

definition IntegerField_init :: "container option \<Rightarrow> kwargs \<Rightarrow> nat \<Rightarrow> error + field" where
  "IntegerField_init vals kw cc = FieldBase_init IntegerField vals kw cc"

definition ShortDateField_init :: "kwargs \<Rightarrow> nat \<Rightarrow> error + field" where
  "ShortDateField_init kw cc = StringField_init ShortDateField None (kw\<lparr>kw_length := Some 6\<rparr>) cc"

definition DateField_init :: "kwargs \<Rightarrow> nat \<Rightarrow> error + field" where
  "DateField_init kw cc = StringField_init DateField None (kw\<lparr>kw_length := Some 8\<rparr>) cc"

definition CurrencyField_init :: "kwargs \<Rightarrow> nat \<Rightarrow> error + field" where
  "CurrencyField_init kw cc = StringField_init CurrencyField None (kw\<lparr>kw_length := Some 3\<rparr>) cc"

definition StaticField_init :: "ustring \<Rightarrow> kwargs \<Rightarrow> nat \<Rightarrow> error + field" where
  "StaticField_init static_value kw cc =
     StringField_init (StaticField static_value) None
       (kw\<lparr>kw_length := Some (length static_value)\<rparr>) cc"

text \<open>
  \<open>self.values and value not in self.values\<close>: whether the value is rejected; the
  membership test itself can raise.
\<close>

definition values_reject :: "container option \<Rightarrow> pyval \<Rightarrow> error + bool" where
  "values_reject vs v =
     (case vs of
        None \<Rightarrow> Inr False
      | Some c \<Rightarrow>
          if container_truthy c
          then (case py_in v c of Inl e \<Rightarrow> Inl e | Inr b \<Rightarrow> Inr (\<not> b))
          else Inr False)"

text \<open>\<open>self.max_length and len(value) > self.max_length\<close>.\<close>

definition exceeds :: "nat option \<Rightarrow> nat \<Rightarrow> bool" where
  "exceeds m n = (case m of None \<Rightarrow> False | Some k \<Rightarrow> k \<noteq> 0 \<and> n > k)"

definition StringField_process :: "field \<Rightarrow> pyval \<Rightarrow> error + ustring" where
  "StringField_process f v =
     (if \<not> truthy v \<and> blank f then Inr []
      else if \<not> truthy v \<and> required f then Inl (ValueError ''Field must not be empty'')
      else
        (case values_reject (values_field f) v of
           Inl e \<Rightarrow> Inl e
         | Inr True \<Rightarrow> Inl (ValueError ''Value not in values'')
         | Inr False \<Rightarrow>
             if v = PNone \<and> is_set (length_field f)
             then Inl (ValueError ''Field with fixed length can't be None'')
             else
               (let s = py_str (py_or v (PStr []))
                in if is_set (length_field f) \<and> Some (length s) \<noteq> length_field f
                   then Inl (ValueError ''Fixed length string needs value of matching length'')
                   else if exceeds (max_length f) (length s)
                   then Inl (ValueError ''Value longer than max_length'')
                   else Inr (replace_char 10 32 s))))"

definition IntegerField_process :: "field \<Rightarrow> pyval \<Rightarrow> error + ustring" where
  "IntegerField_process f v =
     (if blank f \<and> v = PNone then Inr []
      else if v = PNone \<and> is_set (length_field f)
      then Inl (ValueError ''Field with fixed length can't be None'')
      else
        (case values_reject (values_field f) v of
           Inl e \<Rightarrow> Inl e
         | Inr True \<Rightarrow> Inl (ValueError ''Value not allowed'')
         | Inr False \<Rightarrow>
             if is_set (length_field f)
             then (case v of
                     PInt i \<Rightarrow> Inr (format_0d (the (length_field f)) i)
                   | _ \<Rightarrow> Inl (ValueError ''Value can't be converted''))
             else if v = PNone then Inr []
             else (case v of
                     PInt i \<Rightarrow>
                       (case max_length f of
                          None \<Rightarrow> Inl TypeError
                        | Some m \<Rightarrow>
                            if length (str_int i) > m
                            then Inl (ValueError ''Number too big for max_length'')
                            else Inr (str_int i))
                   | _ \<Rightarrow> Inl TypeError)))"

text \<open>
  The date fields read \<open>value.strftime\<close> and \<open>value.year\<close>: a \<open>str\<close> or an \<open>int\<close> has
  neither (\<open>AttributeError\<close>), and none of the embedded values has a \<open>date\<close> attribute.
\<close>

definition ShortDateField_process :: "field \<Rightarrow> pyval \<Rightarrow> error + ustring" where
  "ShortDateField_process f v =
     (if \<not> truthy v \<and> blank f then Inr []
      else if v = PNone then Inl (ValueError ''None is not a valid date'')
      else (case v of
              PDate y m d \<Rightarrow>
                StringField_process f
                  (PStr (format_0d 2 (int d) @ format_0d 2 (int m) @ format_0d 2 (int (y mod 100))))
            | _ \<Rightarrow> Inl AttributeError))"

definition DateField_process :: "field \<Rightarrow> pyval \<Rightarrow> error + ustring" where
  "DateField_process f v =
     (if \<not> truthy v \<and> blank f then Inr []
      else if v = PNone then Inl (ValueError ''None is not a valid date'')
      else (case v of
              PDate y m d \<Rightarrow>
                StringField_process f
                  (PStr (format_0d 4 (int y) @ format_0d 2 (int m) @ format_0d 2 (int d)))
            | _ \<Rightarrow> Inl AttributeError))"

definition StaticField_process :: "ustring \<Rightarrow> pyval \<Rightarrow> error + ustring" where
  "StaticField_process static_value v =
     (if v \<noteq> PNone \<and> v \<noteq> PStr static_value
      then Inl (ValueError ''invalid value'')
      else Inr static_value)"

text \<open>
  The length the constructor of a subclass puts into \<open>kwargs["length"]\<close>: a property of
  every descriptor the constructors return.
\<close>

definition subclass_length :: "field \<Rightarrow> bool" where
  "subclass_length f =
     (case kind f of
        StaticField static_value \<Rightarrow> length_field f = Some (length static_value)
      | ShortDateField \<Rightarrow> length_field f = Some 6
      | DateField \<Rightarrow> length_field f = Some 8
      | CurrencyField \<Rightarrow> length_field f = Some 3
      | StringField \<Rightarrow> True
      | IntegerField \<Rightarrow> True)"

text \<open>Method dispatch on the class of the descriptor.\<close>

definition process :: "field \<Rightarrow> pyval \<Rightarrow> error + ustring" where
  "process f v =
     (case kind f of
        StringField \<Rightarrow> StringField_process f v
      | CurrencyField \<Rightarrow> StringField_process f v
      | IntegerField \<Rightarrow> IntegerField_process f v
      | ShortDateField \<Rightarrow> ShortDateField_process f v
      | DateField \<Rightarrow> DateField_process f v
      | StaticField static_value \<Rightarrow> StaticField_process static_value v)"

section \<open>Schema registration (base.py)\<close>

text \<open>
  The body of a row class is a sequence of attribute definitions. An attribute is a field
  descriptor or something else (a constant, \<open>separator\<close>, a method). Evaluating the body
  runs the field constructors in order, each reading and then incrementing the class-wide
  creation counter; an exception of a constructor aborts the class definition.
\<close>

datatype attr = Field field | Other

fun class_body :: "(ustring \<times> (nat \<Rightarrow> error + field)) list \<Rightarrow> nat \<Rightarrow> error + (ustring \<times> attr) list" where
  "class_body [] cc = Inr []"
| "class_body ((n, new) # ds) cc =
     (case new cc of
        Inl e \<Rightarrow> Inl e
      | Inr f \<Rightarrow>
          (case class_body ds (Suc cc) of
             Inl e \<Rightarrow> Inl e
           | Inr attrs \<Rightarrow> Inr ((n, Field f) # attrs)))"

text \<open>\<open>str.capitalize\<close> on the ASCII letters of an attribute name.\<close>

definition upper :: "uchar \<Rightarrow> uchar" where
  "upper c = (if 97 \<le> c \<and> c \<le> 122 then c - 32 else c)"

definition lower :: "uchar \<Rightarrow> uchar" where
  "lower c = (if 65 \<le> c \<and> c \<le> 90 then c + 32 else c)"

fun capitalize :: "ustring \<Rightarrow> ustring" where
  "capitalize [] = []"
| "capitalize (c # cs) = upper c # map lower cs"

fun field_items :: "(ustring \<times> attr) list \<Rightarrow> (ustring \<times> field) list" where
  "field_items [] = []"
| "field_items ((fname, Field obj) # attrs) = (fname, obj) # field_items attrs"
| "field_items ((fname, Other) # attrs) = field_items attrs"

text \<open>
  The body of the \<open>for index, (field_name, field) in enumerate(fields)\<close> loop: the
  assignment \<open>field.index = index\<close> stands inside \<open>if field.name is None\<close>.
\<close>

definition register :: "nat \<Rightarrow> ustring \<Rightarrow> field \<Rightarrow> field" where
  "register i fname f =
     (if name f = None
      then f\<lparr>name := Some (capitalize (replace_char 95 32 fname)), index := Some (int i)\<rparr>
      else f)\<lparr>field_name := Some fname\<rparr>"

text \<open>
  \<open>get_declared_fields(bases, attrs)\<close>; \<open>bases\<close> is not used by the source. \<open>sorted\<close>
  and \<open>list.sort\<close> are stable, as \<open>sort_key\<close> is. The result is the item list of the
  returned \<open>OrderedDict\<close>.
\<close>

definition get_declared_fields :: "(ustring \<times> attr) list \<Rightarrow> (ustring \<times> field) list" where
  "get_declared_fields attrs =
     (let fields = field_items attrs;
          fields = sort_key (\<lambda>x. creation_counter (snd x)) fields;
          fields = map (\<lambda>(i, (fname, f)). (fname, register i fname f)) (enumerate 0 fields)
      in sort_key (\<lambda>x. creation_counter (snd x)) fields)"

section \<open>Charset table and encoder (base.py)\<close>

definition valid_ascii_characters :: ustring where
  \<open>valid_ascii_characters =
     [9] @ ustr '' !"#$%&'()*+,-./0123456789:<=>?@^_''
     @ ustr ''ABCDEFGHIJKLMNOPQRSTUVWXYZ''
     @ ustr ''abcdefghijklmnopqrstuvwxyz[]''\<close>

text \<open>The keys are the precomposed letters U+00FC, U+00F6, U+00E4, U+00DC, U+00C4, U+00D6, U+00DF.\<close>

definition custom_characters :: "(ustring \<times> bytes) list" where
  "custom_characters =
     [([0xFC], [0x81]), ([0xF6], [0x94]), ([0xE4], [0x84]), ([0xDC], [0x9A]),
      ([0xC4], [0x8E]), ([0xD6], [0x99]), ([0xDF], [0xE1])]"

definition charset_translations :: "ustring \<rightharpoonup> bytes" where
  "charset_translations =
     map_of (map (\<lambda>x. ([x], [of_nat x])) valid_ascii_characters) ++ map_of custom_characters"

text \<open>
  What \<open>logger.error\<close> receives: the distinct characters that are no key of the table (the
  message joins a set, whose order is not specified) and the field name when one is given
  and not empty.
\<close>

datatype log_record = Invalid_characters "uchar list" "ustring option"

text \<open>
  \<open>normalize_and_encode(charset, value, field_name=None)\<close>. \<open>unicodedata.normalize("NFKC", _)\<close>
  belongs to the standard library; it is the parameter \<open>NFKC\<close>. The result is the list of
  records logged and the bytes returned.
\<close>

definition normalize_and_encode ::
  "(ustring \<Rightarrow> ustring) \<Rightarrow> (ustring \<rightharpoonup> bytes) \<Rightarrow> ustring \<Rightarrow> ustring option \<Rightarrow> log_record list \<times> bytes" where
  "normalize_and_encode NFKC charset v fname =
     (let v = NFKC v;
          invalid = remdups (filter (\<lambda>x. charset [x] = None) v)
      in ((if invalid \<noteq> []
           then [Invalid_characters invalid
                   (case fname of None \<Rightarrow> None | Some n \<Rightarrow> if n \<noteq> [] then Some n else None)]
           else []),
          concat (map (\<lambda>x. case charset [x] of None \<Rightarrow> [] | Some b \<Rightarrow> b) v)))"

section \<open>Rows (base.py, rows.py)\<close>

record row_class =
  base_fields :: "(ustring \<times> field) list"
  separator :: bytes
  charset :: "ustring \<rightharpoonup> bytes"

text \<open>\<open>RowMeta.__new__\<close> stores the declared fields in the class.\<close>

definition RowMeta_new :: "(ustring \<times> attr) list \<Rightarrow> bytes \<Rightarrow> (ustring \<rightharpoonup> bytes) \<Rightarrow> row_class" where
  "RowMeta_new attrs sep cs =
     \<lparr>base_fields = get_declared_fields attrs, separator = sep, charset = cs\<rparr>"

text \<open>
  A class statement: the body is evaluated with the creation counter at \<open>cc\<close>, then the
  metaclass builds the class with the given \<open>separator\<close> and \<open>charset\<close>.
\<close>

definition define_row ::
  "(ustring \<times> (nat \<Rightarrow> error + field)) list \<Rightarrow> bytes \<Rightarrow> (ustring \<rightharpoonup> bytes) \<Rightarrow> nat \<Rightarrow> error + row_class" where
  "define_row body sep cs cc =
     (case class_body body cc of
        Inl e \<Rightarrow> Inl e
      | Inr attrs \<Rightarrow> Inr (RowMeta_new attrs sep cs))"

record row =
  row_class :: row_class
  fields_row :: "(ustring \<times> field) list"
  values_row :: "(ustring \<times> pyval) list"

text \<open>\<open>kwargs.get(field_name)\<close>.\<close>

definition kwargs_get :: "(ustring \<rightharpoonup> pyval) \<Rightarrow> ustring \<Rightarrow> pyval" where
  "kwargs_get kw n = (case kw n of None \<Rightarrow> PNone | Some v \<Rightarrow> v)"

definition RowBase_init :: "row_class \<Rightarrow> (ustring \<rightharpoonup> pyval) \<Rightarrow> row" where
  "RowBase_init cls kw =
     \<lparr>row_class = cls, fields_row = base_fields cls,
      values_row = map (\<lambda>(fname, f). (fname, kwargs_get kw fname)) (base_fields cls)\<rparr>"

text \<open>\<open>separator.join(parts)\<close>.\<close>

fun py_join :: "bytes \<Rightarrow> bytes list \<Rightarrow> bytes" where
  "py_join sep [] = []"
| "py_join sep [b] = b"
| "py_join sep (b # c # bs) = b @ sep @ py_join sep (c # bs)"

text \<open>
  The generator consumed by \<open>join\<close>: field after field, look the value up, process it,
  encode the text. The first exception ends the run; what was logged before stays logged.
\<close>

fun encode_fields ::
  "(ustring \<Rightarrow> ustring) \<Rightarrow> (ustring \<rightharpoonup> bytes) \<Rightarrow> (ustring \<times> pyval) list \<Rightarrow> (ustring \<times> field) list
     \<Rightarrow> log_record list \<times> (error + bytes list)" where
  "encode_fields NFKC cs vals [] = ([], Inr [])"
| "encode_fields NFKC cs vals ((fname, f) # fs) =
     (case map_of vals fname of
        None \<Rightarrow> ([], Inl KeyError)
      | Some v \<Rightarrow>
          (case process f v of
             Inl e \<Rightarrow> ([], Inl e)
           | Inr t \<Rightarrow>
               (let (logged, b) = normalize_and_encode NFKC cs t (Some fname);
                    (logged', r) = encode_fields NFKC cs vals fs
                in (logged @ logged',
                    (case r of Inl e \<Rightarrow> Inl e | Inr bs \<Rightarrow> Inr (b # bs))))))"

text \<open>\<open>RowBase.output\<close>.\<close>

definition RowBase_output :: "(ustring \<Rightarrow> ustring) \<Rightarrow> row \<Rightarrow> log_record list \<times> (error + bytes)" where
  "RowBase_output NFKC self =
     (let (logged, r) =
            encode_fields NFKC (charset (row_class self)) (values_row self) (fields_row self)
      in (logged,
          (case r of
             Inl e \<Rightarrow> Inl e
           | Inr bs \<Rightarrow> Inr (py_join (separator (row_class self)) bs @ separator (row_class self)))))"

text \<open>The header row of rows.py; the class body runs when the module is imported.\<close>

definition VorlaufZeile_body :: "(ustring \<times> (nat \<Rightarrow> error + field)) list" where
  "VorlaufZeile_body =
     [(ustr ''satzartenkennzeichen'', StaticField_init (ustr ''V'') no_kwargs),
      (ustr ''dummy'', StaticField_init (ustr '' '') no_kwargs),
      (ustr ''erstellungsdatum'', ShortDateField_init no_kwargs),
      (ustr ''informationstext1'', StringField_init StringField None (no_kwargs\<lparr>kw_length := Some 40\<rparr>)),
      (ustr ''informationstext2'', StringField_init StringField None (no_kwargs\<lparr>kw_length := Some 40\<rparr>)),
      (ustr ''informationstext3'', StringField_init StringField None (no_kwargs\<lparr>kw_length := Some 35\<rparr>)),
      (ustr ''version'', StaticField_init (ustr ''04'') no_kwargs),
      (ustr ''waehrungskennzeichen'', StaticField_init (ustr ''EUR'') no_kwargs)]"

definition VorlaufZeile :: "nat \<Rightarrow> error + row_class" where
  "VorlaufZeile cc = define_row VorlaufZeile_body [] charset_translations cc"

text \<open>\<open>VorlaufZeile.output\<close>: the output of the base class, then \<open>assert len(output) == 128\<close>.\<close>

definition VorlaufZeile_output :: "(ustring \<Rightarrow> ustring) \<Rightarrow> row \<Rightarrow> log_record list \<times> (error + bytes)" where
  "VorlaufZeile_output NFKC self =
     (let (logged, r) = RowBase_output NFKC self
      in (logged,
          (case r of
             Inl e \<Rightarrow> Inl e
           | Inr out \<Rightarrow> if length out = 128 then Inr out else Inl AssertionError)))"

text \<open>\<open>Artikelzeile.verarbeitungsmerker = StringField(values="AN", length=1)\<close>.\<close>

definition Artikelzeile_verarbeitungsmerker :: "nat \<Rightarrow> error + field" where
  "Artikelzeile_verarbeitungsmerker =
     StringField_init StringField (Some (CStr (ustr ''AN''))) (no_kwargs\<lparr>kw_length := Some 1\<rparr>)"

section \<open>Text chunker (base.py)\<close>

text \<open>The characters \<open>str.strip()\<close> removes, and the line boundaries of \<open>str.splitlines()\<close>.\<close>

definition isspace :: "uchar \<Rightarrow> bool" where
  "isspace c \<longleftrightarrow>
     (9 \<le> c \<and> c \<le> 13) \<or> (28 \<le> c \<and> c \<le> 32) \<or> c = 0x85 \<or> c = 0xA0 \<or> c = 0x1680
     \<or> (0x2000 \<le> c \<and> c \<le> 0x200A) \<or> c = 0x2028 \<or> c = 0x2029 \<or> c = 0x202F
     \<or> c = 0x205F \<or> c = 0x3000"

definition islinebreak :: "uchar \<Rightarrow> bool" where
  "islinebreak c \<longleftrightarrow>
     (10 \<le> c \<and> c \<le> 13) \<or> (28 \<le> c \<and> c \<le> 30) \<or> c = 0x85 \<or> c = 0x2028 \<or> c = 0x2029"

definition strip :: "ustring \<Rightarrow> ustring" where
  "strip s = rev (dropWhile isspace (rev (dropWhile isspace s)))"

text \<open>\<open>splitlines\<close>: \<open>cur\<close> is the line being read; a carriage return followed by a line feed is one boundary.\<close>

fun splitlines_from :: "ustring \<Rightarrow> ustring \<Rightarrow> ustring list" where
  "splitlines_from cur [] = (if cur = [] then [] else [cur])"
| "splitlines_from cur (c # cs) =
     (if c = 13 \<and> cs \<noteq> [] \<and> hd cs = 10 then cur # splitlines_from [] (tl cs)
      else if islinebreak c then cur # splitlines_from [] cs
      else splitlines_from (cur @ [c]) cs)"

definition splitlines :: "ustring \<Rightarrow> ustring list" where
  "splitlines s = splitlines_from [] s"

text \<open>\<open>s.rfind(sub)\<close>: the highest index where \<open>sub\<close> starts in \<open>s\<close>, or -1.\<close>

fun rfind_upto :: "ustring \<Rightarrow> ustring \<Rightarrow> nat \<Rightarrow> int" where
  "rfind_upto s sub 0 = (if take (length sub) s = sub then 0 else - 1)"
| "rfind_upto s sub (Suc i) =
     (if take (length sub) (drop (Suc i) s) = sub then int (Suc i) else rfind_upto s sub i)"

definition rfind :: "ustring \<Rightarrow> ustring \<Rightarrow> int" where
  "rfind s sub = (if length sub > length s then - 1 else rfind_upto s sub (length s - length sub))"

text \<open>
  The \<open>while True\<close> loop of \<open>chunk_text\<close> for one line; \<open>chunks\<close> is the list the loop
  appends to. A run that never leaves the loop has the value \<open>None\<close>.
\<close>

partial_function (option) chunk_line :: "nat \<Rightarrow> ustring \<Rightarrow> ustring \<Rightarrow> ustring list \<Rightarrow> ustring list option" where
  "chunk_line chunk_size split_char line chunks =
     (let line = strip line
      in if length line > chunk_size
         then (let separate_at = rfind (take chunk_size line) split_char;
                   separate_at = (if separate_at = - 1 then int chunk_size else separate_at)
               in chunk_line chunk_size split_char (drop (nat separate_at) line)
                    (chunks @ [take (nat separate_at) line]))
         else Some (chunks @ [line]))"

text \<open>The \<open>for line in lines\<close> loop.\<close>

fun chunk_lines :: "nat \<Rightarrow> ustring \<Rightarrow> ustring list \<Rightarrow> ustring list \<Rightarrow> ustring list option" where
  "chunk_lines chunk_size split_char [] chunks = Some chunks"
| "chunk_lines chunk_size split_char (line # lines) chunks =
     (case chunk_line chunk_size split_char line chunks of
        None \<Rightarrow> None
      | Some chunks' \<Rightarrow> chunk_lines chunk_size split_char lines chunks')"

definition chunk_text :: "(ustring \<Rightarrow> ustring) \<Rightarrow> ustring \<Rightarrow> nat \<Rightarrow> ustring \<Rightarrow> ustring list option" where
  "chunk_text NFKC text chunk_size split_char =
     chunk_lines chunk_size split_char (splitlines (NFKC text)) []"

section \<open>Expressions used in the examples\<close>

text \<open>\<open>Cls(...).process(v)\<close>: construct a descriptor, then process a value with it.\<close>

definition process_of :: "error + field \<Rightarrow> pyval \<Rightarrow> error + ustring" where
  "process_of new v = (case new of Inl e \<Rightarrow> Inl e | Inr f \<Rightarrow> process f v)"

text \<open>The ordinals a class definition leaves in its descriptors, in the order of \<open>base_fields\<close>.\<close>

definition declared_indexes :: "(ustring \<times> (nat \<Rightarrow> error + field)) list \<Rightarrow> nat \<Rightarrow> error + (ustring \<times> int option) list" where
  "declared_indexes body cc =
     (case class_body body cc of
        Inl e \<Rightarrow> Inl e
      | Inr attrs \<Rightarrow> Inr (map (\<lambda>(fname, f). (fname, index f)) (get_declared_fields attrs)))"

text \<open>
  A row class with three text fields, the second with an explicit name:
  \<^verbatim>\<open>
  class Labelled(RowBase):
      a = StringField(max_length=30)
      b = StringField(max_length=30, name="Label")
      c = StringField(max_length=30)
  \<close>
\<close>

definition Labelled_body :: "(ustring \<times> (nat \<Rightarrow> error + field)) list" where
  "Labelled_body =
     [(ustr ''a'', StringField_init StringField None (no_kwargs\<lparr>kw_max_length := Some 30\<rparr>)),
      (ustr ''b'', StringField_init StringField None
                     (no_kwargs\<lparr>kw_max_length := Some 30, kw_name := Some (ustr ''Label'')\<rparr>)),
      (ustr ''c'', StringField_init StringField None (no_kwargs\<lparr>kw_max_length := Some 30\<rparr>))]"

text \<open>
  The two-field rows of the tests:
  \<^verbatim>\<open>
  class TestRow(RowBase):
      separator = b"_"        # left out in test_translation, where it is b";"
      a = StringField(max_length=30)
      b = StringField(max_length=30)
  \<close>
\<close>

definition TestRow_body :: "(ustring \<times> (nat \<Rightarrow> error + field)) list" where
  "TestRow_body =
     [(ustr ''a'', StringField_init StringField None (no_kwargs\<lparr>kw_max_length := Some 30\<rparr>)),
      (ustr ''b'', StringField_init StringField None (no_kwargs\<lparr>kw_max_length := Some 30\<rparr>))]"

definition TestRow :: "bytes \<Rightarrow> row_class" where
  "TestRow sep = projr (define_row TestRow_body sep charset_translations 0)"




text \<open>
  The keyword arguments of the header row in \<open>example_export\<close> of the tests, with a fixed
  date and a given first information text.
\<close>

definition header_kwargs :: "ustring \<Rightarrow> (ustring \<rightharpoonup> pyval)" where
  "header_kwargs info1 =
     [ustr ''datenkennzeichen'' \<mapsto> PStr (ustr ''A''),
      ustr ''waehrungskennzeichen'' \<mapsto> PStr (ustr ''EUR''),
      ustr ''erstellungsdatum'' \<mapsto> PDate 2014 10 11,
      ustr ''informationstext1'' \<mapsto> PStr info1,
      ustr ''informationstext2'' \<mapsto> PStr (replicate 40 32),
      ustr ''informationstext3'' \<mapsto> PStr (replicate 35 32)]"

text \<open>
  A text the encoder maps byte for byte: normalization leaves it as it is and each of its
  characters is a key of the table.
\<close>

definition in_charset :: "(ustring \<Rightarrow> ustring) \<Rightarrow> (ustring \<rightharpoonup> bytes) \<Rightarrow> ustring \<Rightarrow> bool" where
  "in_charset NFKC cs t \<longleftrightarrow> NFKC t = t \<and> list_all (\<lambda>x. cs [x] \<noteq> None) t"

section \<open>Evaluation of the examples\<close>

lemma ustr_simps:
  "ustr [] = []"
  "ustr (c # cs) = of_char c # ustr cs"
  by (simp_all add: ustr_def)

subsection \<open>Allowed values of a text field\<close>

text \<open>
  C1. A text field constructed with allowed values never rejects a value for not being
  among them, because the constructor does not store the set:
  \<open>StringField(values="AN", length=1)\<close> has \<open>values = None\<close> and its \<open>process("X")\<close>
  returns \<open>"X"\<close>.
\<close>

theorem C1_allowed_values_not_enforced:
  "map_sum id values_field (Artikelzeile_verarbeitungsmerker cc) = Inr None
   \<and> process_of (Artikelzeile_verarbeitungsmerker cc) (PStr (ustr ''X'')) = Inr (ustr ''X'')"
  by (simp add: Artikelzeile_verarbeitungsmerker_def StringField_init_def FieldBase_init_def
      no_kwargs_def is_set_def process_of_def process_def StringField_process_def
      values_reject_def py_or_def exceeds_def replace_char_def ustr_simps)

subsection \<open>Ordinals after registration\<close>

text \<open>
  C3. In the class \<open>Labelled\<close> the field \<open>b\<close>, constructed with an explicit name, is left
  without an ordinal by the registration, so the ordinals are not the range 0..2.
\<close>

theorem C3_named_field_without_ordinal:
  "declared_indexes Labelled_body 0 = Inr [(ustr ''a'', Some 0), (ustr ''b'', None), (ustr ''c'', Some 2)]"
  by (simp add: declared_indexes_def Labelled_body_def StringField_init_def FieldBase_init_def
      no_kwargs_def is_set_def get_declared_fields_def register_def enumerate_eq_zip
      upt_rec ustr_simps)

subsection \<open>A run of the chunker that does not end\<close>

lemma strip_dash_line: "strip (ustr ''-ABCDEFGH'') = ustr ''-ABCDEFGH''"
  by (simp add: strip_def ustr_simps isspace_def)

lemma rfind_dash_line: "rfind (take 5 (ustr ''-ABCDEFGH'')) (ustr ''-'') = 0"
  by (simp add: rfind_def ustr_simps eval_nat_numeral)

lemma chunk_line_dash_no_result:
  assumes "chunk_line cs sc line chunks = Some y"
  shows "\<not> (cs = 5 \<and> sc = ustr ''-'' \<and> strip line = ustr ''-ABCDEFGH'')"
  using assms
proof (induction cs sc line chunks y rule: chunk_line.raw_induct[rotated 1, consumes 1])
  case (1 f cs sc line chunks y)
  show ?case
  proof
    assume a: "cs = 5 \<and> sc = ustr ''-'' \<and> strip line = ustr ''-ABCDEFGH''"
    have len: "length (ustr ''-ABCDEFGH'') = 9"
      by (simp add: ustr_simps)
    from 1(2) a have step: "f 5 (ustr ''-'') (ustr ''-ABCDEFGH'') (chunks @ [[]]) = Some y"
      by (simp add: Let_def rfind_dash_line len)
    have "\<not> (5 = (5::nat) \<and> ustr ''-'' = ustr ''-'' \<and> strip (ustr ''-ABCDEFGH'') = ustr ''-ABCDEFGH'')"
      by (rule 1(1)[OF step])
    then show False
      by (simp add: strip_dash_line)
  qed
qed

text \<open>
  C7. \<open>chunk_text("-ABCDEFGH", 5, "-")\<close> does not return: the split character is found at
  index 0 of the stripped line, the chunk is empty and the line stays as it is.
\<close>

theorem C7_chunk_text_no_result:
  "chunk_text (\<lambda>s. s) (ustr ''-ABCDEFGH'') 5 (ustr ''-'') = None"
proof -
  have sl: "splitlines (ustr ''-ABCDEFGH'') = [ustr ''-ABCDEFGH'']"
    by (simp add: splitlines_def ustr_simps islinebreak_def)
  have "chunk_line 5 (ustr ''-'') (ustr ''-ABCDEFGH'') [] = None"
    using chunk_line_dash_no_result[of 5 "ustr ''-''" "ustr ''-ABCDEFGH''" "[]"] strip_dash_line
    by (cases "chunk_line 5 (ustr ''-'') (ustr ''-ABCDEFGH'') []") auto
  then show ?thesis
    by (simp add: chunk_text_def sl)
qed

subsection \<open>The charset encoder\<close>

lemma returns_iff: "returns r \<longleftrightarrow> (\<exists>x. r = Inr x)"
  by (cases r) (simp_all add: returns_def)

lemma concat_lookup_filter:
  "concat (map (\<lambda>x. case cs [x] of None \<Rightarrow> [] | Some b \<Rightarrow> b) v) =
   concat (map (\<lambda>x. the (cs [x])) (filter (\<lambda>x. cs [x] \<noteq> None) v))"
  by (induction v) (auto split: option.splits)

text \<open>
  C5. For every charset table, text and field label the encoder returns (the model has no
  raising branch): the bytes are the table entries of the characters of the normalized text
  that are keys of the table, in order, the other characters being dropped. At most one
  record is logged, and none exactly when no character is missing.
\<close>

theorem C5_encoder_total:
  "\<exists>logged. normalize_and_encode NFKC cs v fname =
      (logged, concat (map (\<lambda>x. the (cs [x])) (filter (\<lambda>x. cs [x] \<noteq> None) (NFKC v))))
    \<and> length logged \<le> 1
    \<and> (logged = [] \<longleftrightarrow> filter (\<lambda>x. cs [x] = None) (NFKC v) = [])"
  by (simp add: normalize_and_encode_def Let_def concat_lookup_filter)

subsection \<open>The default table and the delimiter\<close>

lemma charset_translations_semicolon: "charset_translations [59] = None"
  by (simp add: charset_translations_def custom_characters_def valid_ascii_characters_def
      ustr_simps map_add_def)

lemma valid_ascii_bytes:
  "\<forall>x \<in> set valid_ascii_characters. (of_nat x :: byte) \<noteq> 59"
  by (simp add: valid_ascii_characters_def ustr_simps)

lemma charset_translations_value:
  assumes "charset_translations k = Some b"
  shows "59 \<notin> set b \<and> length b = 1"
proof -
  from assms have "map_of custom_characters k = Some b
      \<or> map_of (map (\<lambda>x. ([x], [of_nat x])) valid_ascii_characters) k = Some b"
    by (auto simp: charset_translations_def map_add_Some_iff)
  then show ?thesis
  proof
    assume "map_of custom_characters k = Some b"
    then have "(k, b) \<in> set custom_characters" by (rule map_of_SomeD)
    then show ?thesis by (auto simp: custom_characters_def)
  next
    assume "map_of (map (\<lambda>x. ([x], [of_nat x])) valid_ascii_characters) k = Some b"
    then have "(k, b) \<in> set (map (\<lambda>x. ([x], [of_nat x])) valid_ascii_characters)"
      by (rule map_of_SomeD)
    then obtain x where "x \<in> set valid_ascii_characters" "b = [of_nat x]" by auto
    with valid_ascii_bytes show ?thesis by auto
  qed
qed

lemma encode_default_no_semicolon:
  "59 \<notin> set (snd (normalize_and_encode NFKC charset_translations v fname))"
proof -
  have "59 \<notin> set (case charset_translations [x] of None \<Rightarrow> [] | Some b \<Rightarrow> b)" for x
    using charset_translations_value[of "[x]"] by (cases "charset_translations [x]") auto
  then show ?thesis
    by (auto simp: normalize_and_encode_def Let_def)
qed

subsection \<open>Row output\<close>

lemma map_of_values_row:
  "(fname, f) \<in> set fs \<Longrightarrow> map_of (map (\<lambda>(fname, f). (fname, g fname)) fs) fname = Some (g fname)"
  by (induction fs) auto

lemma encode_fields_all_ok:
  assumes "set fs \<subseteq> set all"
      and "\<forall>(fname, f) \<in> set fs. returns (process f (g fname))"
  shows "snd (encode_fields NFKC cs (map (\<lambda>(fname, f). (fname, g fname)) all) fs) =
         Inr (map (\<lambda>(fname, f). snd (normalize_and_encode NFKC cs (projr (process f (g fname))) (Some fname))) fs)"
  using assms
proof (induction fs)
  case Nil
  then show ?case by simp
next
  case (Cons a fs)
  obtain fname f where a: "a = (fname, f)" by (cases a)
  from Cons.prems a have mem: "(fname, f) \<in> set all" by auto
  from Cons.prems a obtain t where t: "process f (g fname) = Inr t" by (auto simp: returns_iff)
  from Cons have IH: "snd (encode_fields NFKC cs (map (\<lambda>(fname, f). (fname, g fname)) all) fs) =
         Inr (map (\<lambda>(fname, f). snd (normalize_and_encode NFKC cs (projr (process f (g fname))) (Some fname))) fs)"
    by auto
  define vals where "vals = map (\<lambda>(fname, f). (fname, g fname)) all"
  have mo: "map_of vals fname = Some (g fname)"
    unfolding vals_def by (rule map_of_values_row[OF mem])
  obtain lg b where e: "normalize_and_encode NFKC cs t (Some fname) = (lg, b)"
    by (cases "normalize_and_encode NFKC cs t (Some fname)")
  obtain lg' r where r: "encode_fields NFKC cs vals fs = (lg', r)"
    by (cases "encode_fields NFKC cs vals fs")
  from IH r have r': "r = Inr (map (\<lambda>(fname, f). snd (normalize_and_encode NFKC cs (projr (process f (g fname))) (Some fname))) fs)"
    by (simp add: vals_def)
  have "snd (encode_fields NFKC cs vals (a # fs)) = Inr (b # map (\<lambda>(fname, f). snd (normalize_and_encode NFKC cs (projr (process f (g fname))) (Some fname))) fs)"
    by (simp add: a mo t e r r')
  then show ?case
    by (simp add: vals_def a t e)
qed

lemma py_join_count:
  "\<forall>b \<in> set bs. d \<notin> set b \<Longrightarrow> length (filter (\<lambda>x. x = d) (py_join [d] bs)) = length bs - 1"
  by (induction "[d]" bs rule: py_join.induct) (auto simp: filter_empty_conv)

lemma encode_fields_parts:
  "snd (encode_fields NFKC cs vals fs) = Inr bs \<Longrightarrow>
   length bs = length fs \<and> (\<forall>b \<in> set bs. \<exists>t fname. b = snd (normalize_and_encode NFKC cs t fname))"
proof (induction fs arbitrary: bs)
  case Nil
  then show ?case by simp
next
  case (Cons a fs)
  obtain fname f where a: "a = (fname, f)" by (cases a)
  obtain lg' r where r: "encode_fields NFKC cs vals fs = (lg', r)"
    by (cases "encode_fields NFKC cs vals fs")
  from Cons.prems obtain v t bs' where
    "process f v = Inr t" "r = Inr bs'" "bs = snd (normalize_and_encode NFKC cs t (Some fname)) # bs'"
    by (auto simp: a r split: option.splits sum.splits prod.splits)
  with Cons.IH[of bs'] r show ?case by auto
qed

text \<open>
  C10. \<open>";"\<close> is no key of the default table and no entry of the table holds the byte
  0x3B, so the bytes encoded with the default table never contain it. A row with the default
  table and the default separator therefore holds one 0x3B per field (one in all for a row
  without fields), whatever the values.
\<close>

theorem C10_no_delimiter_injection:
  "charset_translations [59] = None
   \<and> 59 \<notin> set (snd (normalize_and_encode NFKC charset_translations v fname))
   \<and> (charset cls = charset_translations \<and> separator cls = [59]
        \<and> snd (RowBase_output NFKC (RowBase_init cls kw)) = Inr out
      \<longrightarrow> length (filter (\<lambda>b. b = 59) out) = max 1 (length (base_fields cls)))"
proof (intro conjI impI)
  show "charset_translations [59] = None" by (rule charset_translations_semicolon)
  show "59 \<notin> set (snd (normalize_and_encode NFKC charset_translations v fname))"
    by (rule encode_default_no_semicolon)
next
  assume a: "charset cls = charset_translations \<and> separator cls = [59]
        \<and> snd (RowBase_output NFKC (RowBase_init cls kw)) = Inr out"
  obtain lg r where r: "encode_fields NFKC charset_translations
      (values_row (RowBase_init cls kw)) (base_fields cls) = (lg, r)"
    by (cases "encode_fields NFKC charset_translations (values_row (RowBase_init cls kw)) (base_fields cls)")
  from a r obtain bs where bs: "r = Inr bs" "out = py_join [59] bs @ [59]"
    by (auto simp: RowBase_output_def RowBase_init_def split: sum.splits)
  from encode_fields_parts[of NFKC charset_translations "values_row (RowBase_init cls kw)" "base_fields cls" bs] r bs
  have len: "length bs = length (base_fields cls)"
    and parts: "\<forall>b \<in> set bs. \<exists>t fname. b = snd (normalize_and_encode NFKC charset_translations t fname)"
    by auto
  from parts have "\<forall>b \<in> set bs. 59 \<notin> set b"
    by (auto simp: encode_default_no_semicolon)
  from py_join_count[OF this] bs len
  show "length (filter (\<lambda>b. b = 59) out) = max 1 (length (base_fields cls))"
    by auto
qed

text \<open>The value \<open>"x;y"\<close> loses its \<open>";"\<close>: two fields, two delimiters.\<close>

theorem C10_no_delimiter_injection_witness:
  "charset (TestRow [59]) = charset_translations \<and> separator (TestRow [59]) = [59]
   \<and> snd (RowBase_output (\<lambda>s. s)
          (RowBase_init (TestRow [59]) [ustr ''a'' \<mapsto> PStr (ustr ''x;y''), ustr ''b'' \<mapsto> PStr [0xDF]]))
      = Inr [120, 121, 59, 0xE1, 59]
   \<and> length (filter (\<lambda>b. b = 59) [120, 121, 59, 0xE1, 59 :: byte]) = max 1 (length (base_fields (TestRow [59])))"
proof -
  let ?kw = "[ustr ''a'' \<mapsto> PStr (ustr ''x;y''), ustr ''b'' \<mapsto> PStr [0xDF]]"
  have c: "charset (TestRow [59]) = charset_translations"
    by (simp add: TestRow_def define_row_def TestRow_body_def StringField_init_def
        FieldBase_init_def no_kwargs_def is_set_def RowMeta_new_def)
  have s: "separator (TestRow [59]) = [59]"
    by (simp add: TestRow_def define_row_def TestRow_body_def StringField_init_def
        FieldBase_init_def no_kwargs_def is_set_def RowMeta_new_def)
  have out: "snd (RowBase_output (\<lambda>s. s) (RowBase_init (TestRow [59]) ?kw)) = Inr [120, 121, 59, 0xE1, 59]"
    by code_simp
  from C10_no_delimiter_injection[of "\<lambda>s. s" "[]" None "TestRow [59]" ?kw "[120, 121, 59, 0xE1, 59]"] c s out
  show ?thesis by blast
qed

section \<open>Field processing\<close>

lemma digits_nonempty: "digits n \<noteq> []"
  by (subst digits.simps) simp

lemma format_0d_nonempty: "format_0d w i \<noteq> []"
  by (simp add: format_0d_def Let_def digits_nonempty)

lemma format_0d_length:
  "length (str_int i) \<le> w \<Longrightarrow> length (format_0d w i) = w"
  by (auto simp: format_0d_def str_int_def Let_def)

lemma constructors_subclass_length:
  "StringField_init StringField vals kw cc = Inr f \<Longrightarrow> subclass_length f"
  "IntegerField_init vals kw cc = Inr f \<Longrightarrow> subclass_length f"
  "ShortDateField_init kw cc = Inr f \<Longrightarrow> subclass_length f"
  "DateField_init kw cc = Inr f \<Longrightarrow> subclass_length f"
  "CurrencyField_init kw cc = Inr f \<Longrightarrow> subclass_length f"
  "StaticField_init static_value kw cc = Inr f \<Longrightarrow> subclass_length f"
  by (auto simp: StringField_init_def IntegerField_init_def ShortDateField_init_def
      DateField_init_def CurrencyField_init_def StaticField_init_def FieldBase_init_def
      subclass_length_def split: if_splits)

lemma StringField_process_result:
  assumes "StringField_process f v = Inr t"
  shows "t = replace_char 10 32 (py_str (py_or v (PStr [])))
         \<and> ((t = [] \<and> blank f \<and> \<not> truthy v)
            \<or> ((is_set (length_field f) \<longrightarrow> length_field f = Some (length t))
                \<and> \<not> exceeds (max_length f) (length t)))"
  using assms
  by (cases v)
     (auto simp: StringField_process_def Let_def py_or_def replace_char_def
       split: if_splits sum.splits bool.splits)

lemma process_fixed_length:
  assumes "subclass_length f" and "length_field f = Some n" and "0 < n"
      and "process f v = Inr t"
      and "\<And>i. kind f = IntegerField \<Longrightarrow> v = PInt i \<Longrightarrow> length (str_int i) \<le> n"
  shows "length t = n \<or> (t = [] \<and> blank f \<and> \<not> truthy v)"
proof (cases "kind f")
  case StringField
  with assms(4) have "StringField_process f v = Inr t" by (simp add: process_def)
  from StringField_process_result[OF this] assms(2,3) show ?thesis
    by (auto simp: is_set_def)
next
  case CurrencyField
  with assms(4) have "StringField_process f v = Inr t" by (simp add: process_def)
  from StringField_process_result[OF this] assms(2,3) show ?thesis
    by (auto simp: is_set_def)
next
  case IntegerField
  with assms(4) have p: "IntegerField_process f v = Inr t" by (simp add: process_def)
  show ?thesis
  proof (cases v)
    case (PInt i)
    from assms(5)[OF IntegerField PInt] have "length (format_0d n i) = n"
      by (rule format_0d_length)
    with p PInt assms(2,3) show ?thesis
      by (auto simp: IntegerField_process_def is_set_def split: if_splits sum.splits bool.splits)
  qed (use p assms(2,3) in \<open>auto simp: IntegerField_process_def is_set_def split: if_splits sum.splits bool.splits\<close>)
next
  case ShortDateField
  with assms(4) have p: "ShortDateField_process f v = Inr t" by (simp add: process_def)
  show ?thesis
  proof (cases v)
    case (PDate y m d)
    with p have "StringField_process f (PStr (format_0d 2 (int d) @ format_0d 2 (int m) @ format_0d 2 (int (y mod 100)))) = Inr t"
      by (simp add: ShortDateField_process_def split: if_splits)
    from StringField_process_result[OF this] assms(2,3) show ?thesis
      by (auto simp: is_set_def format_0d_nonempty)
  qed (use p in \<open>auto simp: ShortDateField_process_def split: if_splits\<close>)
next
  case DateField
  with assms(4) have p: "DateField_process f v = Inr t" by (simp add: process_def)
  show ?thesis
  proof (cases v)
    case (PDate y m d)
    with p have "StringField_process f (PStr (format_0d 4 (int y) @ format_0d 2 (int m) @ format_0d 2 (int d))) = Inr t"
      by (simp add: DateField_process_def split: if_splits)
    from StringField_process_result[OF this] assms(2,3) show ?thesis
      by (auto simp: is_set_def format_0d_nonempty)
  qed (use p in \<open>auto simp: DateField_process_def split: if_splits\<close>)
next
  case (StaticField sv)
  with assms(1,2,4) show ?thesis
    by (auto simp: process_def StaticField_process_def subclass_length_def split: if_splits)
qed

text \<open>
  C9 (amended). For a text field (\<open>StringField\<close>, \<open>CurrencyField\<close>) and a raw value it
  accepts, the returned text is the textual form of the value with every line feed (U+000A)
  replaced by a space: it has the same length and contains no line feed. Other line
  breaks are not touched.
\<close>

theorem C9_newline_replaced:
  assumes "kind f = StringField \<or> kind f = CurrencyField" and "process f v = Inr t"
  shows "10 \<notin> set t
         \<and> length t = length (py_str (py_or v (PStr [])))
         \<and> t = map (\<lambda>c. if c = 10 then 32 else c) (py_str (py_or v (PStr [])))"
proof -
  from assms have "StringField_process f v = Inr t"
    by (auto simp: process_def)
  from StringField_process_result[OF this]
  have "t = replace_char 10 32 (py_str (py_or v (PStr [])))" by simp
  then show ?thesis
    by (auto simp: replace_char_def)
qed

text \<open>
  C8 (amended). With \<open>required\<close> set and \<open>blank\<close> not set: a text field raises
  \<open>ValueError\<close> for every empty raw value (\<open>None\<close>, \<open>""\<close>, \<open>0\<close>); a date field and
  an integer field with a fixed length raise \<open>ValueError\<close> for \<open>None\<close>; a static field
  returns its constant for \<open>None\<close>.
\<close>

theorem C8_required_empty:
  assumes "required f" and "\<not> blank f"
  shows "(kind f = StringField \<or> kind f = CurrencyField \<longrightarrow> \<not> truthy v \<longrightarrow>
            process f v = Inl (ValueError ''Field must not be empty''))
       \<and> (kind f = ShortDateField \<or> kind f = DateField \<longrightarrow>
            process f PNone = Inl (ValueError ''None is not a valid date''))
       \<and> (kind f = IntegerField \<longrightarrow> is_set (length_field f) \<longrightarrow>
            process f PNone = Inl (ValueError ''Field with fixed length can't be None''))
       \<and> (kind f = StaticField static_value \<longrightarrow> process f PNone = Inr static_value)"
  using assms
  by (auto simp: process_def StringField_process_def ShortDateField_process_def
      DateField_process_def IntegerField_process_def StaticField_process_def)


text \<open>
  C2 (amended). For a descriptor with fixed length \<open>n > 0\<close>, \<open>process\<close> raises, or returns
  the empty text (only for a blank-allowing field and an empty raw value), or returns a text
  of length exactly \<open>n\<close>; for an integer field this is stated for the values whose decimal
  rendering, sign included, has at most \<open>n\<close> characters.
\<close>

theorem C2_fixed_length:
  assumes "subclass_length f" and "length_field f = Some n" and "0 < n"
      and "process f v = Inr t"
      and "\<And>i. kind f = IntegerField \<Longrightarrow> v = PInt i \<Longrightarrow> length (str_int i) \<le> n"
  shows "length t = n \<or> (t = [] \<and> blank f \<and> \<not> truthy v)"
  using assms by (rule process_fixed_length)

text \<open>\<open>IntegerField(length=3).process(10)\<close> is \<open>"010"\<close>.\<close>

theorem C2_fixed_length_witness:
  "process (projr (IntegerField_init None (no_kwargs\<lparr>kw_length := Some 3\<rparr>) 0)) (PInt 10) = Inr (ustr ''010'')
   \<and> length (ustr ''010'') = 3"
proof -
  let ?f = "projr (IntegerField_init None (no_kwargs\<lparr>kw_length := Some 3\<rparr>) 0)"
  have a: "subclass_length ?f" by code_simp
  have b: "length_field ?f = Some 3" by code_simp
  have c: "process ?f (PInt 10) = Inr (ustr ''010'')" by code_simp
  have d: "length (str_int i) \<le> 3" if "PInt 10 = PInt i" for i
  proof -
    from that have "i = 10" by simp
    moreover have "length (str_int 10) \<le> 3" by code_simp
    ultimately show ?thesis by simp
  qed
  have e: "\<not> (ustr ''010'' = [] \<and> blank ?f \<and> \<not> truthy (PInt 10))" by code_simp
  from C2_fixed_length[OF a b _ c d] e c show ?thesis by simp
qed

text \<open>
  C2 as stated fails: \<open>IntegerField(length=1).process(10)\<close> returns \<open>"10"\<close>, and
  \<open>StringField(length=5, blank=True).process("")\<close> returns \<open>""\<close>.
\<close>

theorem C2_fixed_length_counterexample:
  "process_of (IntegerField_init None (no_kwargs\<lparr>kw_length := Some 1\<rparr>) 0) (PInt 10) = Inr [49, 48]
   \<and> process_of (StringField_init StringField None (no_kwargs\<lparr>kw_length := Some 5, kw_blank := True\<rparr>) 0) (PStr [])
       = Inr []"
  by code_simp

text \<open>\<open>StringField(max_length=5)\<close> turns \<open>a\<close>, line feed, \<open>b\<close> into \<open>"a b"\<close>.\<close>

theorem C9_newline_replaced_witness:
  "process (projr (StringField_init StringField None (no_kwargs\<lparr>kw_max_length := Some 5\<rparr>) 0)) (PStr [97, 10, 98])
     = Inr [97, 32, 98]
   \<and> (10::nat) \<notin> set [97, 32, 98]"
proof -
  let ?f = "projr (StringField_init StringField None (no_kwargs\<lparr>kw_max_length := Some 5\<rparr>) 0)"
  have k: "kind ?f = StringField \<or> kind ?f = CurrencyField" by code_simp
  have p: "process ?f (PStr [97, 10, 98]) = Inr [97, 32, 98]" by code_simp
  have "10 \<notin> set [97, 32, 98::nat]"
    using C9_newline_replaced[OF k p] by (rule conjunct1)
  with p show ?thesis by (rule conjI)
qed

text \<open>
  C9 as stated fails: \<open>StringField(max_length=5)\<close> returns \<open>a\<close>, carriage return
  (U+000D), \<open>b\<close> as it is.
\<close>

theorem C9_carriage_return_kept:
  "process_of (StringField_init StringField None (no_kwargs\<lparr>kw_max_length := Some 5\<rparr>) 0) (PStr [97, 13, 98])
     = Inr [97, 13, 98]"
  by code_simp

text \<open>One required descriptor of each of the four kinds.\<close>

theorem C8_required_empty_witness:
  "process (projr (StringField_init StringField None (no_kwargs\<lparr>kw_required := True, kw_max_length := Some 5\<rparr>) 0)) (PStr [])
     = Inl (ValueError ''Field must not be empty'')
   \<and> process (projr (DateField_init (no_kwargs\<lparr>kw_required := True\<rparr>) 0)) PNone
     = Inl (ValueError ''None is not a valid date'')
   \<and> process (projr (IntegerField_init None (no_kwargs\<lparr>kw_required := True, kw_length := Some 3\<rparr>) 0)) PNone
     = Inl (ValueError ''Field with fixed length can't be None'')
   \<and> process (projr (StaticField_init (ustr ''V'') (no_kwargs\<lparr>kw_required := True\<rparr>) 0)) PNone
     = Inr (ustr ''V'')"
proof -
  let ?s = "projr (StringField_init StringField None (no_kwargs\<lparr>kw_required := True, kw_max_length := Some 5\<rparr>) 0)"
  let ?d = "projr (DateField_init (no_kwargs\<lparr>kw_required := True\<rparr>) 0)"
  let ?i = "projr (IntegerField_init None (no_kwargs\<lparr>kw_required := True, kw_length := Some 3\<rparr>) 0)"
  let ?c = "projr (StaticField_init (ustr ''V'') (no_kwargs\<lparr>kw_required := True\<rparr>) 0)"
  have s: "required ?s" "\<not> blank ?s" "kind ?s = StringField" "\<not> truthy (PStr [])" by code_simp+
  have d: "required ?d" "\<not> blank ?d" "kind ?d = DateField" by code_simp+
  have i: "required ?i" "\<not> blank ?i" "kind ?i = IntegerField" "is_set (length_field ?i)" by code_simp+
  have c: "required ?c" "\<not> blank ?c" "kind ?c = StaticField (ustr ''V'')" by code_simp+
  from C8_required_empty[OF s(1,2), of "PStr []"] s(3,4)
  have 1: "process ?s (PStr []) = Inl (ValueError ''Field must not be empty'')" by blast
  from C8_required_empty[OF d(1,2)] d(3)
  have 2: "process ?d PNone = Inl (ValueError ''None is not a valid date'')" by blast
  from C8_required_empty[OF i(1,2)] i(3,4)
  have 3: "process ?i PNone = Inl (ValueError ''Field with fixed length can't be None'')" by blast
  from C8_required_empty[OF c(1,2), of _ "ustr ''V''"] c(3)
  have 4: "process ?c PNone = Inr (ustr ''V'')" by blast
  from 1 2 3 4 show ?thesis by blast
qed

text \<open>
  C8 as stated fails: with \<open>required=True\<close>, \<open>StaticField("V").process(None)\<close> returns
  \<open>"V"\<close> and \<open>IntegerField(max_length=5).process(None)\<close> returns \<open>""\<close>.
\<close>

theorem C8_required_ignored:
  "process_of (StaticField_init (ustr ''V'') (no_kwargs\<lparr>kw_required := True\<rparr>) 0) PNone = Inr (ustr ''V'')
   \<and> process_of (IntegerField_init None (no_kwargs\<lparr>kw_required := True, kw_max_length := Some 5\<rparr>) 0) PNone = Inr []"
  by code_simp

section \<open>The header row\<close>

lemma VorlaufZeile_shape:
  assumes "VorlaufZeile cc = Inr cls"
  shows "separator cls = []" and "charset cls = charset_translations"
    and "map (\<lambda>(fname, f). length_field f) (base_fields cls) =
           [Some 1, Some 1, Some 6, Some 40, Some 40, Some 35, Some 2, Some 3]"
    and "list_all (\<lambda>(fname, f). subclass_length f \<and> \<not> blank f \<and> kind f \<noteq> IntegerField) (base_fields cls)"
  using assms
  by (auto simp add: VorlaufZeile_def define_row_def VorlaufZeile_body_def StaticField_init_def
      ShortDateField_init_def StringField_init_def FieldBase_init_def no_kwargs_def is_set_def
      RowMeta_new_def get_declared_fields_def register_def enumerate_eq_zip upt_rec
      subclass_length_def ustr_simps)

lemma VorlaufZeile_defined: "\<exists>cls. VorlaufZeile cc = Inr cls"
  by (simp add: VorlaufZeile_def define_row_def VorlaufZeile_body_def StaticField_init_def
      ShortDateField_init_def StringField_init_def FieldBase_init_def no_kwargs_def is_set_def)


lemma encode_length:
  assumes "in_charset NFKC charset_translations t"
  shows "length (snd (normalize_and_encode NFKC charset_translations t fname)) = length t"
proof -
  have "list_all (\<lambda>x. charset_translations [x] \<noteq> None) s \<Longrightarrow>
        length (concat (map (\<lambda>x. case charset_translations [x] of None \<Rightarrow> [] | Some b \<Rightarrow> b) s)) = length s" for s
  proof (induction s)
    case Nil
    then show ?case by simp
  next
    case (Cons a s)
    then obtain b where b: "charset_translations [a] = Some b" by auto
    from charset_translations_value[OF b] have "length b = 1" by simp
    with Cons b show ?case by simp
  qed
  with assms show ?thesis
    by (simp add: in_charset_def normalize_and_encode_def Let_def)
qed

lemma py_join_empty: "py_join [] bs = concat bs"
  by (induction "[] :: bytes" bs rule: py_join.induct) simp_all

text \<open>
  For a header row whose field values all pass \<open>process\<close> and whose processed texts the
  encoder maps byte for byte (normalization leaves them unchanged and all their characters
  are keys of the charset table), \<open>output\<close> returns and the result has exactly 128 bytes.
\<close>

lemma header_output_128:
  assumes cls: "VorlaufZeile cc = Inr cls"
      and ok: "\<forall>(fname, f) \<in> set (base_fields cls).
                 returns (process f (kwargs_get kw fname))
                 \<and> in_charset NFKC (charset cls) (projr (process f (kwargs_get kw fname)))"
  shows "\<exists>out. snd (VorlaufZeile_output NFKC (RowBase_init cls kw)) = Inr out \<and> length out = 128"
proof -
  note shape = VorlaufZeile_shape[OF cls]
  let ?processed = "\<lambda>(fname, f). projr (process f (kwargs_get kw fname))"
  let ?enc = "\<lambda>(fname, f). snd (normalize_and_encode NFKC (charset cls)
                 (projr (process f (kwargs_get kw fname))) (Some fname))"
  let ?out = "concat (map ?enc (base_fields cls))"
  from ok have ret: "\<forall>(fname, f) \<in> set (base_fields cls). returns (process f (kwargs_get kw fname))"
    by auto
  have "snd (encode_fields NFKC (charset cls)
               (map (\<lambda>(fname, f). (fname, kwargs_get kw fname)) (base_fields cls)) (base_fields cls))
        = Inr (map ?enc (base_fields cls))"
    by (rule encode_fields_all_ok[OF subset_refl ret])
  then have out: "snd (RowBase_output NFKC (RowBase_init cls kw)) = Inr ?out"
    by (simp add: RowBase_output_def RowBase_init_def split_beta shape(1) py_join_empty)
  have enc: "length (?enc x) = length (?processed x)" if "x \<in> set (base_fields cls)" for x
  proof -
    obtain fname f where x: "x = (fname, f)" by (cases x)
    from ok that x have "in_charset NFKC charset_translations (projr (process f (kwargs_get kw fname)))"
      by (auto simp: shape(2))
    from encode_length[OF this] show ?thesis
      by (simp add: x shape(2))
  qed
  have tlen: "length (?processed x) = the (length_field (snd x))" if "x \<in> set (base_fields cls)" for x
  proof -
    obtain fname f where x: "x = (fname, f)" by (cases x)
    from that x have "length_field f \<in> set (map (\<lambda>(fname, f). length_field f) (base_fields cls))"
      by force
    then obtain n where n: "length_field f = Some n" "0 < n"
      unfolding shape(3) by auto
    from shape(4) that x have f: "subclass_length f" "\<not> blank f" "kind f \<noteq> IntegerField"
      by (auto simp: list_all_iff)
    from ret that x obtain t where t: "process f (kwargs_get kw fname) = Inr t"
      by (auto simp: returns_iff)
    from process_fixed_length[OF f(1) n t] f(2,3) have "length t = n"
      by auto
    then show ?thesis
      by (simp add: x t n)
  qed
  have "length ?out = sum_list (map (\<lambda>x. length (?enc x)) (base_fields cls))"
    by (simp add: length_concat comp_def)
  also have "\<dots> = sum_list (map (\<lambda>x. the (length_field (snd x))) (base_fields cls))"
    by (rule arg_cong[where f = sum_list], rule map_cong[OF refl]) (simp add: enc tlen)
  also have "\<dots> = sum_list (map the (map (\<lambda>(fname, f). length_field f) (base_fields cls)))"
    by (simp add: comp_def split_beta)
  also have "\<dots> = 128"
    unfolding shape(3) by simp
  finally have "length ?out = 128" .
  with out show ?thesis
    by (simp add: VorlaufZeile_output_def split_beta)
qed

lemma map_of_single_keys:
  "x \<in> set xs \<Longrightarrow> map_of (map (\<lambda>x. ([x], [of_nat x :: byte])) xs) [x] = Some [of_nat x]"
  by (induction xs) auto

lemma valid_ascii_characters_below: "\<forall>x \<in> set valid_ascii_characters. x < 128"
  by (simp add: valid_ascii_characters_def ustr_simps)

lemma custom_characters_not_ascii:
  assumes "x \<in> set valid_ascii_characters"
  shows "map_of custom_characters [x] = None"
proof -
  from assms valid_ascii_characters_below have "x < 128" by blast
  then show ?thesis by (simp add: custom_characters_def)
qed

lemma charset_translations_ascii:
  "x \<in> set valid_ascii_characters \<Longrightarrow> charset_translations [x] = Some [of_nat x]"
  by (simp add: charset_translations_def map_add_def custom_characters_not_ascii map_of_single_keys)

lemma in_charset_ascii:
  "set t \<subseteq> set valid_ascii_characters \<Longrightarrow> in_charset (\<lambda>s. s) charset_translations t"
  by (auto simp: in_charset_def list_all_iff charset_translations_ascii)


lemma snd_normalize_and_encode:
  "snd (normalize_and_encode NFKC cs t fname) =
   concat (map (\<lambda>x. case cs [x] of None \<Rightarrow> [] | Some b \<Rightarrow> b) (NFKC t))"
  by (simp add: normalize_and_encode_def Let_def)

lemma header_texts_ascii:
  "\<forall>r \<in> set [Inr (ustr ''V''), Inr (ustr '' ''), Inr (ustr ''111014''), Inr (replicate 40 32),
               Inr (replicate 40 32), Inr (replicate 35 32), Inr (ustr ''04''), Inr (ustr ''EUR'') :: error + ustring].
     returns r \<and> set (projr r) \<subseteq> set valid_ascii_characters"
  by (simp add: returns_def valid_ascii_characters_def ustr_simps)

text \<open>The header of the example export, with information texts of spaces.\<close>

lemma header_output_128_example:
  "\<exists>out. snd (VorlaufZeile_output (\<lambda>s. s)
              (RowBase_init (projr (VorlaufZeile 0)) (header_kwargs (replicate 40 32)))) = Inr out
         \<and> length out = 128"
proof -
  let ?cls = "projr (VorlaufZeile 0)"
  let ?kw = "header_kwargs (replicate 40 32)"
  from VorlaufZeile_defined[of 0] have cls: "VorlaufZeile 0 = Inr ?cls"
    by auto
  have texts: "map (\<lambda>(fname, f). process f (kwargs_get ?kw fname)) (base_fields ?cls) =
      [Inr (ustr ''V''), Inr (ustr '' ''), Inr (ustr ''111014''), Inr (replicate 40 32),
       Inr (replicate 40 32), Inr (replicate 35 32), Inr (ustr ''04''), Inr (ustr ''EUR'')]"
    by code_simp
  have ok: "\<forall>(fname, f) \<in> set (base_fields ?cls).
                 returns (process f (kwargs_get ?kw fname))
                 \<and> in_charset (\<lambda>s. s) (charset ?cls) (projr (process f (kwargs_get ?kw fname)))"
  proof (intro ballI, clarify)
    fix fname f assume "(fname, f) \<in> set (base_fields ?cls)"
    then have "process f (kwargs_get ?kw fname)
        \<in> set (map (\<lambda>(fname, f). process f (kwargs_get ?kw fname)) (base_fields ?cls))"
      by force
    with header_texts_ascii
    have "returns (process f (kwargs_get ?kw fname))
          \<and> set (projr (process f (kwargs_get ?kw fname))) \<subseteq> set valid_ascii_characters"
      unfolding texts by blast
    then show "returns (process f (kwargs_get ?kw fname))
          \<and> in_charset (\<lambda>s. s) (charset ?cls) (projr (process f (kwargs_get ?kw fname)))"
      by (simp add: VorlaufZeile_shape(2)[OF cls] in_charset_ascii)
  qed
  from header_output_128[OF cls ok] show ?thesis .
qed

text \<open>
  C4. A header row whose field values all pass \<open>process\<close> can still fail the assertion
  of \<open>VorlaufZeile.output\<close>: with a first information text of forty \<open>";"\<close> every field
  passes \<open>process\<close>, the encoder drops the forty characters, and \<open>output\<close> raises
  \<open>AssertionError\<close> on the 88 remaining bytes instead of returning 128 bytes.
\<close>

theorem C4_assertion_reached:
  "list_all (\<lambda>(fname, f). returns (process f (kwargs_get (header_kwargs (replicate 40 59)) fname)))
     (base_fields (projr (VorlaufZeile 0)))
   \<and> snd (VorlaufZeile_output (\<lambda>s. s)
            (RowBase_init (projr (VorlaufZeile 0)) (header_kwargs (replicate 40 59))))
     = Inl AssertionError"
proof -
  let ?cls = "projr (VorlaufZeile 0)"
  let ?kw = "header_kwargs (replicate 40 59)"
  let ?bytes = "\<lambda>t. concat (map (\<lambda>x. case charset_translations [x] of None \<Rightarrow> [] | Some b \<Rightarrow> b) t)"
  let ?enc = "\<lambda>(fname, f). snd (normalize_and_encode (\<lambda>s. s) (charset ?cls)
                 (projr (process f (kwargs_get ?kw fname))) (Some fname))"
  from VorlaufZeile_defined[of 0] have cls: "VorlaufZeile 0 = Inr ?cls"
    by auto
  note shape = VorlaufZeile_shape[OF cls]
  have texts: "map (\<lambda>(fname, f). process f (kwargs_get ?kw fname)) (base_fields ?cls) =
      [Inr (ustr ''V''), Inr (ustr '' ''), Inr (ustr ''111014''), Inr (replicate 40 59),
       Inr (replicate 40 32), Inr (replicate 35 32), Inr (ustr ''04''), Inr (ustr ''EUR'')]"
    by code_simp
  have ret: "\<forall>(fname, f) \<in> set (base_fields ?cls). returns (process f (kwargs_get ?kw fname))"
  proof (intro ballI, clarify)
    fix fname f assume "(fname, f) \<in> set (base_fields ?cls)"
    then have "process f (kwargs_get ?kw fname)
        \<in> set (map (\<lambda>(fname, f). process f (kwargs_get ?kw fname)) (base_fields ?cls))"
      by force
    then show "returns (process f (kwargs_get ?kw fname))"
      unfolding texts by (auto simp: returns_def)
  qed
  have "snd (encode_fields (\<lambda>s. s) (charset ?cls)
               (map (\<lambda>(fname, f). (fname, kwargs_get ?kw fname)) (base_fields ?cls)) (base_fields ?cls))
        = Inr (map ?enc (base_fields ?cls))"
    by (rule encode_fields_all_ok[OF subset_refl ret])
  then have out: "snd (RowBase_output (\<lambda>s. s) (RowBase_init ?cls ?kw)) = Inr (concat (map ?enc (base_fields ?cls)))"
    by (simp add: RowBase_output_def RowBase_init_def split_beta shape(1) py_join_empty)
  have "map ?enc (base_fields ?cls) =
        map (\<lambda>r. ?bytes (projr r)) (map (\<lambda>(fname, f). process f (kwargs_get ?kw fname)) (base_fields ?cls))"
    by (simp add: split_beta snd_normalize_and_encode shape(2))
  then have "map ?enc (base_fields ?cls) =
        [?bytes (ustr ''V''), ?bytes (ustr '' ''), ?bytes (ustr ''111014''), ?bytes (replicate 40 59),
         ?bytes (replicate 40 32), ?bytes (replicate 35 32), ?bytes (ustr ''04''), ?bytes (ustr ''EUR'')]"
    unfolding texts by simp
  moreover have "charset_translations [x] = Some [of_nat x]"
    if "x \<in> {86, 32, 49, 48, 52, 69, 85, 82}" for x
    using that by (intro charset_translations_ascii) (auto simp: valid_ascii_characters_def ustr_simps)
  ultimately have "length (concat (map ?enc (base_fields ?cls))) = 88"
    by (simp add: ustr_simps charset_translations_semicolon)
  with out have "snd (VorlaufZeile_output (\<lambda>s. s) (RowBase_init ?cls ?kw)) = Inl AssertionError"
    by (simp add: VorlaufZeile_output_def split_beta)
  moreover from ret have "list_all (\<lambda>(fname, f). returns (process f (kwargs_get ?kw fname))) (base_fields ?cls)"
    by (simp only: list_all_iff)
  ultimately show ?thesis by (rule conjI[rotated])
qed

section \<open>Registration in general\<close>







section \<open>The chunker in general\<close>

lemma rfind_upto_bounds: "- 1 \<le> rfind_upto s sub i \<and> rfind_upto s sub i \<le> int i"
  by (induction i) auto

lemma rfind_bounds: "- 1 \<le> rfind s sub \<and> rfind s sub \<le> int (length s)"
  using rfind_upto_bounds[of s sub "length s - length sub"]
  by (auto simp: rfind_def)

lemma rfind_upto_found:
  "rfind_upto s sub i = int k \<Longrightarrow> take (length sub) (drop k s) = sub"
proof (induction i)
  case 0
  then show ?case by (auto split: if_splits)
next
  case (Suc i)
  show ?case
  proof (cases "take (length sub) (drop (Suc i) s) = sub")
    case True
    with Suc.prems have "k = Suc i" by simp
    with True show ?thesis by simp
  next
    case False
    with Suc show ?thesis by simp
  qed
qed

lemma rfind_found: "rfind s sub = int k \<Longrightarrow> take (length sub) (drop k s) = sub"
  by (auto simp: rfind_def split: if_splits dest: rfind_upto_found)

lemma length_strip_le: "length (strip s) \<le> length s"
proof -
  have "length (strip s) \<le> length (dropWhile isspace s)"
    unfolding strip_def using length_dropWhile_le[of isspace "rev (dropWhile isspace s)"] by simp
  also have "\<dots> \<le> length s" by (rule length_dropWhile_le)
  finally show ?thesis .
qed

lemma strip_hd_not_space:
  assumes "strip s \<noteq> []"
  shows "\<not> isspace (hd (strip s))"
proof -
  let ?d = "dropWhile isspace s"
  have "rev ?d = takeWhile isspace (rev ?d) @ dropWhile isspace (rev ?d)" by simp
  then have "?d = rev (dropWhile isspace (rev ?d)) @ rev (takeWhile isspace (rev ?d))"
    by (metis rev_append rev_rev_ident)
  then have d: "?d = strip s @ rev (takeWhile isspace (rev ?d))"
    by (simp add: strip_def)
  with assms have "hd ?d = hd (strip s)" "?d \<noteq> []"
    by (metis hd_append2, metis append_is_Nil_conv)
  with hd_dropWhile[of isspace s] show ?thesis by simp
qed

text \<open>Every chunk of a run that returns is at most \<open>chunk_size\<close> long, for any split string.\<close>

lemma chunk_line_bound:
  assumes "chunk_line cs sc line chunks = Some r"
  shows "(\<forall>c \<in> set chunks. length c \<le> cs) \<longrightarrow> (\<forall>c \<in> set r. length c \<le> cs)"
  using assms
proof (induction cs sc line chunks r rule: chunk_line.raw_induct[rotated 1, consumes 1])
  case (1 f cs sc line chunks r)
  show ?case
  proof
    assume b: "\<forall>c \<in> set chunks. length c \<le> cs"
    let ?l = "strip line"
    let ?at = "if rfind (take cs ?l) sc = - 1 then int cs else rfind (take cs ?l) sc"
    show "\<forall>c \<in> set r. length c \<le> cs"
    proof (cases "cs < length ?l")
      case True
      with 1(2) have step: "f cs sc (drop (nat ?at) ?l) (chunks @ [take (nat ?at) ?l]) = Some r"
        by (simp add: Let_def)
      from rfind_bounds[of "take cs ?l" sc] have "nat ?at \<le> cs"
        by auto
      then have "\<forall>c \<in> set (chunks @ [take (nat ?at) ?l]). length c \<le> cs"
        using b by auto
      with 1(1)[OF step] show ?thesis by blast
    next
      case False
      with 1(2) have "r = chunks @ [?l]" by (simp add: Let_def)
      with False b show ?thesis by auto
    qed
  qed
qed

lemma chunk_lines_bound:
  "chunk_lines cs sc lines chunks = Some r \<Longrightarrow> \<forall>c \<in> set chunks. length c \<le> cs
   \<Longrightarrow> \<forall>c \<in> set r. length c \<le> cs"
proof (induction lines arbitrary: chunks)
  case Nil
  then show ?case by simp
next
  case (Cons line lines)
  from Cons.prems(1) obtain chunks' where
    c: "chunk_line cs sc line chunks = Some chunks'" "chunk_lines cs sc lines chunks' = Some r"
    by (auto split: option.splits)
  from chunk_line_bound[OF c(1)] Cons.prems(2) have "\<forall>c \<in> set chunks'. length c \<le> cs" by blast
  from Cons.IH[OF c(2) this] show ?case .
qed

lemma chunk_text_bound:
  "chunk_text NFKC text chunk_size split_char = Some chunks \<Longrightarrow> \<forall>c \<in> set chunks. length c \<le> chunk_size"
  unfolding chunk_text_def by (erule chunk_lines_bound) simp

text \<open>
  The loop ends when the chunk size is positive and the split string is empty or begins
  with a character that \<open>strip\<close> removes, as the default \<open>" "\<close> does.
\<close>

lemma chunk_line_returns:
  assumes "0 < cs" and "sc = [] \<or> isspace (hd sc)"
  shows "\<exists>r. chunk_line cs sc line chunks = Some r"
proof (induction "length line" arbitrary: line chunks rule: less_induct)
  case less
  let ?l = "strip line"
  let ?at = "if rfind (take cs ?l) sc = - 1 then int cs else rfind (take cs ?l) sc"
  show ?case
  proof (cases "cs < length ?l")
    case False
    then show ?thesis by (subst chunk_line.simps) (simp add: Let_def)
  next
    case True
    then have ne: "?l \<noteq> []" by auto
    have pos: "0 < nat ?at"
    proof (cases "rfind (take cs ?l) sc = - 1")
      case True
      with assms(1) show ?thesis by simp
    next
      case False
      with rfind_bounds[of "take cs ?l" sc] have "0 \<le> rfind (take cs ?l) sc"
        by linarith
      then obtain k where k: "rfind (take cs ?l) sc = int k"
        using nonneg_int_cases by blast
      have "k \<noteq> 0"
      proof
        assume "k = 0"
        with rfind_found[OF k] have t: "take (length sc) (take cs ?l) = sc" by simp
        show False
        proof (cases "sc = []")
          case True
          with k \<open>k = 0\<close> have "rfind (take cs ?l) [] = 0" by simp
          moreover have "rfind (take cs ?l) [] = int (length (take cs ?l))"
            by (cases "length (take cs ?l)") (simp_all add: rfind_def)
          ultimately show False using \<open>cs < length ?l\<close> assms(1) by simp
        next
          case False
          with assms(2) have sp: "isspace (hd sc)" by simp
          from False t assms(1) ne have "hd sc = hd ?l"
            by (metis hd_take length_greater_0_conv take_eq_Nil)
          with sp strip_hd_not_space[OF ne] show False by simp
        qed
      qed
      with k False show ?thesis by simp
    qed
    have "length (drop (nat ?at) ?l) < length line"
      using pos True length_strip_le[of line] by simp
    from less[OF this] obtain r where
      "chunk_line cs sc (drop (nat ?at) ?l) (chunks @ [take (nat ?at) ?l]) = Some r"
      by blast
    with True show ?thesis
      by (subst chunk_line.simps) (simp add: Let_def)
  qed
qed

lemma chunk_lines_returns:
  assumes "0 < cs" and "sc = [] \<or> isspace (hd sc)"
  shows "\<exists>r. chunk_lines cs sc lines chunks = Some r"
proof (induction lines arbitrary: chunks)
  case Nil
  then show ?case by simp
next
  case (Cons line lines)
  from chunk_line_returns[OF assms] obtain c where "chunk_line cs sc line chunks = Some c" by blast
  with Cons[of c] show ?case by simp
qed

lemma chunk_text_whitespace_split:
  assumes "0 < chunk_size" and "split_char = [] \<or> isspace (hd split_char)"
  shows "\<exists>chunks. chunk_text NFKC text chunk_size split_char = Some chunks
           \<and> (\<forall>c \<in> set chunks. length c \<le> chunk_size)"
proof -
  from chunk_lines_returns[OF assms] obtain chunks where
    c: "chunk_text NFKC text chunk_size split_char = Some chunks"
    unfolding chunk_text_def by blast
  with chunk_text_bound[OF c] show ?thesis by blast
qed

section \<open>Row output and ordinals\<close>






end
